theory Spec2Isabelle
  imports Main "HOL-Library.Word"
begin

section \<open>Data model\<close>

text \<open>
  Pointers (\<open>IAccessible*\<close>, \<open>AccessibleObject*\<close>, \<open>QAccessibleInterface*\<close>) are
  addresses; address \<open>0\<close> is \<open>nullptr\<close>. A \<open>QString\<close> is a \<open>string\<close>.
\<close>

type_synonym ptr = nat

abbreviation nullptr :: ptr where
  "nullptr \<equiv> 0"

datatype error = NullDereference | OutOfRange

text \<open>
  \<open>IAccessible::Role\<close>: the enumerators named in accessibleiteminterface.cpp and
  accessibilitycontroller.cpp. \<open>OtherRole n\<close> stands for any enumerator value that these
  files do not name (the \<open>default\<close> branch of the switches).
\<close>

datatype Role =
    NoRole | Application | Dialog | Panel | StaticText | SilentRole | EditableText
  | Button | CheckBox | RadioButton | ComboBox | List_role | ListItem | MenuItem
  | SpinBox | Range_role | Group | Information | ElementOnScore | OtherRole nat

datatype IAccessible_State = Enabled | Active | Focused | Selected | Checked

text \<open>
  A \<open>QVariant\<close> is either invalid (default constructed, \<open>{}\<close>) or holds a payload; the
  only observation this code makes of a payload is its \<open>toString()\<close>.
\<close>

datatype QVariant = QVariant_Invalid | QVariant_Value string

fun toString :: "QVariant \<Rightarrow> string" where
  "toString QVariant_Invalid = []"
| "toString (QVariant_Value s) = s"

text \<open>
  What the virtual methods of one \<open>IAccessible\<close> object return when called.
\<close>

record IAccessible =
  accessibleParent :: ptr
  accessibleRole :: Role
  accessibleName :: string
  accessibleDescription :: string
  accessibleState :: "IAccessible_State \<Rightarrow> bool"
  accessibleIgnored :: bool
  accessibleValue :: QVariant
  accessibleScreenReaderInfo :: string
  accessibleExtraInfo :: string

section \<open>Speech fallback\<close>

text \<open>\<open>QStringList::join\<close>.\<close>

fun join :: "string \<Rightarrow> string list \<Rightarrow> string" where
  "join sep [] = []"
| "join sep [x] = x"
| "join sep (x # y # ys) = x @ sep @ join sep (y # ys)"

text \<open>
  \<open>AccessibilityController::buildSpokenDescriptionFor\<close>; the argument is \<open>None\<close> for a
  null pointer and otherwise the object pointed to.
\<close>

definition buildSpokenDescriptionFor :: "IAccessible option \<Rightarrow> string" where
  "buildSpokenDescriptionFor acc =
     (case acc of
        None \<Rightarrow> ''No element focused''
      | Some a \<Rightarrow>
          (let score_parts =
                 (if accessibleRole a = ElementOnScore then
                    (let mainInfo = accessibleScreenReaderInfo a;
                         extra = accessibleExtraInfo a;
                         parts = [];
                         parts = (if mainInfo \<noteq> [] then parts @ [mainInfo] else parts);
                         parts = (if extra \<noteq> [] then parts @ [extra] else parts)
                     in parts)
                  else [])
           in if accessibleRole a = ElementOnScore \<and> score_parts \<noteq> []
              then join ''; '' score_parts
              else
                (let parts = [];
                     name = accessibleName a;
                     desc = accessibleDescription a;
                     val = toString (accessibleValue a);
                     parts = (if name \<noteq> [] then parts @ [name] else parts);
                     parts = (if desc \<noteq> [] then parts @ [desc] else parts);
                     parts = (if val \<noteq> [] then parts @ [''value: '' @ val] else parts)
                 in if parts = [] then ''Unknown element'' else join '', '' parts)))"

text \<open>
  \<open>AccessibilityRepeater::getCurrentElementInfo\<close>; the argument is what
  \<open>accessibilityController()->lastFocused()\<close> points to.
\<close>

definition getCurrentElementInfo :: "IAccessible option \<Rightarrow> string" where
  "getCurrentElementInfo focused =
     (case focused of
        None \<Rightarrow> ''No element focused''
      | Some a \<Rightarrow>
          (let score_parts =
                 (if accessibleRole a = ElementOnScore then
                    (let mainInfo = accessibleScreenReaderInfo a;
                         extra = accessibleExtraInfo a;
                         parts = [];
                         parts = (if mainInfo \<noteq> [] then parts @ [mainInfo] else parts);
                         parts = (if extra \<noteq> [] then parts @ [extra] else parts)
                     in parts)
                  else [])
           in if accessibleRole a = ElementOnScore \<and> score_parts \<noteq> []
              then join ''; '' score_parts
              else
                (let parts = [];
                     name = accessibleName a;
                     desc = accessibleDescription a;
                     val = toString (accessibleValue a);
                     parts = (if name \<noteq> [] then parts @ [name] else parts);
                     parts = (if desc \<noteq> [] then parts @ [desc] else parts);
                     parts = (if val \<noteq> [] then parts @ [''value: '' @ val] else parts)
                 in if parts = [] then ''Unknown element'' else join '', '' parts)))"

text \<open>
  The description as the specification words it: the non-empty strings among
  screen-reader info and extra info joined with \<open>"; "\<close> for a document-content item, and
  otherwise (or when both are empty) the non-empty strings among name, description and
  value, the value rendered as \<open>"value: " + value\<close>, joined with \<open>", "\<close>.
\<close>

definition nonEmpty :: "string list \<Rightarrow> string list" where
  "nonEmpty xs = filter (\<lambda>s. s \<noteq> []) xs"

definition spoken_description_spec :: "IAccessible option \<Rightarrow> string" where
  "spoken_description_spec acc =
     (case acc of
        None \<Rightarrow> ''No element focused''
      | Some a \<Rightarrow>
          (let content = nonEmpty [accessibleScreenReaderInfo a, accessibleExtraInfo a];
               generic = nonEmpty [accessibleName a, accessibleDescription a]
                         @ map (\<lambda>v. ''value: '' @ v) (nonEmpty [toString (accessibleValue a)])
           in if accessibleRole a = ElementOnScore \<and> content \<noteq> [] then join ''; '' content
              else if generic = [] then ''Unknown element''
              else join '', '' generic))"

section \<open>Wrapper state mapping\<close>

text \<open>
  \<open>QAccessible::State\<close>, restricted to the flags that \<open>AccessibleItemInterface::state\<close>
  writes. The default constructor clears every flag.
\<close>

record QAccessible_State =
  invalid :: bool
  disabled :: bool
  invisible :: bool
  active :: bool
  focusable :: bool
  focused :: bool
  checkable :: bool
  checked :: bool
  selectable :: bool
  selected :: bool

definition QAccessible_State_default :: QAccessible_State where
  "QAccessible_State_default =
     \<lparr>invalid = False, disabled = False, invisible = False, active = False,
      focusable = False, focused = False, checkable = False, checked = False,
      selectable = False, selected = False\<rparr>"

definition focusable_focused :: "IAccessible \<Rightarrow> QAccessible_State \<Rightarrow> QAccessible_State" where
  "focusable_focused it st =
     st\<lparr>focusable := True, focused := accessibleState it Focused\<rparr>"

text \<open>
  \<open>AccessibleItemInterface::state\<close>; the argument is the wrapped item
  \<open>m_object->item()\<close>.
\<close>

definition state :: "IAccessible \<Rightarrow> QAccessible_State" where
  "state it =
     (let st = QAccessible_State_default;
          st = st\<lparr>invalid := False\<rparr>;
          st = st\<lparr>disabled := \<not> accessibleState it Enabled\<rparr>;
          st = st\<lparr>invisible := disabled st\<rparr>
      in if disabled st then st
         else
           (case accessibleRole it of
              NoRole \<Rightarrow> st
            | Application \<Rightarrow> st\<lparr>active := True\<rparr>
            | Dialog \<Rightarrow> st\<lparr>active := accessibleState it Active\<rparr>
            | Panel \<Rightarrow> st\<lparr>active := accessibleState it Active\<rparr>
            | Button \<Rightarrow> focusable_focused it st
            | RadioButton \<Rightarrow>
                (focusable_focused it st)\<lparr>checkable := True, checked := accessibleState it Checked\<rparr>
            | EditableText \<Rightarrow> focusable_focused it st
            | StaticText \<Rightarrow> focusable_focused it st
            | SilentRole \<Rightarrow> focusable_focused it st
            | List_role \<Rightarrow> st\<lparr>active := accessibleState it Active\<rparr>
            | ListItem \<Rightarrow>
                (focusable_focused it st)\<lparr>selectable := True, selected := accessibleState it Selected\<rparr>
            | Information \<Rightarrow> focusable_focused it st
            | ElementOnScore \<Rightarrow> focusable_focused it st
            | CheckBox \<Rightarrow>
                (focusable_focused it st)\<lparr>checkable := True, checked := accessibleState it Checked\<rparr>
            | ComboBox \<Rightarrow> focusable_focused it st
            | MenuItem \<Rightarrow> focusable_focused it st
            | SpinBox \<Rightarrow> focusable_focused it st
            | Range_role \<Rightarrow> focusable_focused it st
            | Group \<Rightarrow> focusable_focused it st
            | OtherRole n \<Rightarrow> st))"

section \<open>The controller\<close>

text \<open>
  \<open>AccessibilityController::Item\<close>, the registry entry.
\<close>

record Item =
  item :: ptr
  object :: ptr
  iface :: ptr

definition Item_default :: Item where
  "Item_default = \<lparr>item = nullptr, object = nullptr, iface = nullptr\<rparr>"

definition isValid :: "Item \<Rightarrow> bool" where
  "isValid it = (item it \<noteq> nullptr \<and> object it \<noteq> nullptr)"

datatype QAccessible_Event = ObjectCreated | ObjectDestroyed | NameChanged

record QAccessibleEvent =
  ev_object :: ptr
  ev_type :: QAccessible_Event

datatype QTextToSpeech_State = Ready | Speaking | Paused | Error

datatype tts_call = Stop | Say string

text \<open>
  The collaborators of the controller: the registered objects other than the controller
  itself (\<open>deref\<close> gives what the methods of the object at an address return), the
  platform's \<open>QAccessible::queryAccessibleInterface\<close>, whether \<open>qApp\<close> is set, what the
  speech engine reports as its state, the name, description and value texts of the
  interface of \<open>QGuiApplication::focusObject()\<close> (\<open>None\<close> when there is no focus object
  or it has no interface), and the two \<open>IAccessible\<close> methods that the controller
  inherits without overriding them.
\<close>

record world =
  deref :: "ptr \<Rightarrow> IAccessible"
  queryAccessibleInterface :: "ptr \<Rightarrow> ptr"
  qApp :: bool
  tts_state :: QTextToSpeech_State
  focusObject_text :: "(string \<times> string \<times> string) option"
  inherited_accessibleScreenReaderInfo :: string
  inherited_accessibleExtraInfo :: string

text \<open>
  The members of \<open>AccessibilityController\<close> (the header with \<open>m_keyFilter\<close>, where the
  repeat hotkey defaults to \<open>Qt::Key_F12\<close>; the other header defaults it to
  \<open>Qt::Key_R\<close>), its address \<open>this\<close>, the file-level
  \<open>s_rootObject\<close>, and the effects on its collaborators: the events pushed to the
  internal channel \<open>m_eventSent\<close> and to \<open>QAccessible::updateAccessibility\<close>, the
  installed factory, root object and application event filters, the objects created by
  \<open>new\<close> (their addresses are counted by \<open>heap_next\<close>) and destroyed by \<open>delete\<close>, and
  the calls made to the speech engine. The single-shot timer is the caller of
  \<open>restoreFocus\<close>; no member function starts it.
\<close>

record AccessibilityController =
  this :: ptr
  m_enabled :: bool
  m_inited :: bool
  m_needToVoicePanelInfo :: bool
  m_lastFocused :: ptr
  m_announcement :: string
  m_children :: "ptr list"
  m_allItems :: "ptr \<rightharpoonup> Item"
  m_pretendFocus :: ptr
  m_repeatHotkeyEnabled :: bool
  m_repeatHotkey :: int
  m_textToSpeech :: ptr
  m_keyFilter :: ptr
  m_eventSent :: "QAccessibleEvent list"
  s_rootObject :: ptr
  updateAccessibility :: "QAccessibleEvent list"
  factoryInstalled :: bool
  rootObject :: ptr
  eventFilters :: "ptr list"
  heap_next :: nat
  heap_deleted :: "ptr list"
  tts_calls :: "tts_call list"

definition Qt_Key_F12 :: int where
  "Qt_Key_F12 = 0x0100003b"

definition Qt_Key_R :: int where
  "Qt_Key_R = 0x52"

definition Qt_NoModifier :: "32 word" where
  "Qt_NoModifier = 0"

text \<open>\<open>new\<close>: a fresh, non-null address.\<close>

definition new :: "AccessibilityController \<Rightarrow> ptr \<times> AccessibilityController" where
  "new s = (Suc (heap_next s), s\<lparr>heap_next := Suc (heap_next s)\<rparr>)"

text \<open>
  The constructor, for a controller at address \<open>a\<close>, with the member initialisers of the
  header.
\<close>

definition constructor :: "ptr \<Rightarrow> AccessibilityController" where
  "constructor a =
     (let s = \<lparr>this = a, m_enabled = True, m_inited = False, m_needToVoicePanelInfo = False,
               m_lastFocused = nullptr, m_announcement = [], m_children = [],
               m_allItems = Map.empty, m_pretendFocus = nullptr,
               m_repeatHotkeyEnabled = True, m_repeatHotkey = Qt_Key_F12,
               m_textToSpeech = nullptr, m_keyFilter = nullptr, m_eventSent = [],
               s_rootObject = nullptr, updateAccessibility = [], factoryInstalled = False,
               rootObject = nullptr, eventFilters = [], heap_next = 0, heap_deleted = [],
               tts_calls = []\<rparr>;
          (tts, s) = new s
      in s\<lparr>m_textToSpeech := tts\<rparr>)"

text \<open>
  The constructor of the second variant, with the member initialisers of
  accessibilitycontroller.h: the repeat hotkey defaults to \<open>Qt::Key_R\<close>, and there is no
  \<open>m_keyFilter\<close> member (the field stays null).
\<close>

definition constructor_variant2 :: "ptr \<Rightarrow> AccessibilityController" where
  "constructor_variant2 a =
     (let s = \<lparr>this = a, m_enabled = True, m_inited = False, m_needToVoicePanelInfo = False,
               m_lastFocused = nullptr, m_announcement = [], m_children = [],
               m_allItems = Map.empty, m_pretendFocus = nullptr,
               m_repeatHotkeyEnabled = True, m_repeatHotkey = Qt_Key_R,
               m_textToSpeech = nullptr, m_keyFilter = nullptr, m_eventSent = [],
               s_rootObject = nullptr, updateAccessibility = [], factoryInstalled = False,
               rootObject = nullptr, eventFilters = [], heap_next = 0, heap_deleted = [],
               tts_calls = []\<rparr>;
          (tts, s) = new s
      in s\<lparr>m_textToSpeech := tts\<rparr>)"

definition setAccessibilityEnabled :: "AccessibilityController \<Rightarrow> bool \<Rightarrow> AccessibilityController" where
  "setAccessibilityEnabled s enabled = s\<lparr>m_enabled := enabled\<rparr>"

subsection \<open>The controller as the root item\<close>

definition ctrl_accessibleParent :: ptr where
  "ctrl_accessibleParent = nullptr"

definition accessibleChildCount :: "AccessibilityController \<Rightarrow> 64 word" where
  "accessibleChildCount s = of_nat (length (m_children s))"

text \<open>\<open>QList::at\<close> requires \<open>0 \<le> i < size()\<close>.\<close>

definition at :: "'a list \<Rightarrow> int \<Rightarrow> error + 'a" where
  "at xs i = (if 0 \<le> i \<and> i < int (length xs) then Inr (xs ! nat i) else Inl OutOfRange)"

definition accessibleChild :: "AccessibilityController \<Rightarrow> 64 word \<Rightarrow> error + ptr" where
  "accessibleChild s i =
     (if i \<ge> of_nat (length (m_children s)) then Inr nullptr
      else at (m_children s) (sint (ucast i :: 32 word)))"

definition accessibleWindow :: ptr where
  "accessibleWindow = nullptr"

definition ctrl_accessibleRole :: Role where
  "ctrl_accessibleRole = Application"

definition ctrl_accessibleName :: string where
  "ctrl_accessibleName = ''MuseScore''"

definition ctrl_accessibleDescription :: string where
  "ctrl_accessibleDescription = []"

definition ctrl_accessibleState :: "AccessibilityController \<Rightarrow> IAccessible_State \<Rightarrow> bool" where
  "ctrl_accessibleState s st =
     (case st of Enabled \<Rightarrow> m_enabled s | Active \<Rightarrow> True | _ \<Rightarrow> False)"

definition ctrl_accessibleIgnored :: bool where
  "ctrl_accessibleIgnored = False"

definition ctrl_accessibleValue :: QVariant where
  "ctrl_accessibleValue = QVariant_Invalid"

definition accessibleMaximumValue :: QVariant where
  "accessibleMaximumValue = QVariant_Invalid"

definition accessibleMinimumValue :: QVariant where
  "accessibleMinimumValue = QVariant_Invalid"

definition accessibleValueStepSize :: QVariant where
  "accessibleValueStepSize = QVariant_Invalid"

text \<open>
  An \<open>int*\<close> argument is \<open>None\<close> for a null pointer and otherwise the value pointed to;
  the result gives the values pointed to after the call.
\<close>

definition store_zero :: "int option \<Rightarrow> int option" where
  "store_zero p = (case p of None \<Rightarrow> None | Some v \<Rightarrow> Some 0)"

definition accessibleSelection :: "int \<Rightarrow> int option \<Rightarrow> int option \<Rightarrow> int option \<times> int option" where
  "accessibleSelection n start end' = (store_zero start, store_zero end')"

definition accessibleSelectionCount :: int where
  "accessibleSelectionCount = 0"

definition accessibleCursorPosition :: int where
  "accessibleCursorPosition = 0"

definition accessibleText :: "int \<Rightarrow> int \<Rightarrow> string" where
  "accessibleText a b = []"

definition accessibleTextBeforeOffset ::
  "int \<Rightarrow> 'b \<Rightarrow> int option \<Rightarrow> int option \<Rightarrow> string \<times> int option \<times> int option" where
  "accessibleTextBeforeOffset n boundary start end' = ([], store_zero start, store_zero end')"

definition accessibleTextAfterOffset ::
  "int \<Rightarrow> 'b \<Rightarrow> int option \<Rightarrow> int option \<Rightarrow> string \<times> int option \<times> int option" where
  "accessibleTextAfterOffset n boundary start end' = ([], store_zero start, store_zero end')"

definition accessibleTextAtOffset ::
  "int \<Rightarrow> 'b \<Rightarrow> int option \<Rightarrow> int option \<Rightarrow> string \<times> int option \<times> int option" where
  "accessibleTextAtOffset n boundary start end' = ([], store_zero start, store_zero end')"

definition accessibleCharacterCount :: int where
  "accessibleCharacterCount = 0"

definition accessibleRowIndex :: int where
  "accessibleRowIndex = 0"

text \<open>
  Virtual dispatch: what the methods of the object at a non-null address return. The
  controller answers for its own address, the \<open>world\<close> for every other one.
\<close>

definition ctrl_IAccessible :: "world \<Rightarrow> AccessibilityController \<Rightarrow> IAccessible" where
  "ctrl_IAccessible w s =
     \<lparr>accessibleParent = ctrl_accessibleParent, accessibleRole = ctrl_accessibleRole,
      accessibleName = ctrl_accessibleName, accessibleDescription = ctrl_accessibleDescription,
      accessibleState = ctrl_accessibleState s, accessibleIgnored = ctrl_accessibleIgnored,
      accessibleValue = ctrl_accessibleValue,
      accessibleScreenReaderInfo = inherited_accessibleScreenReaderInfo w,
      accessibleExtraInfo = inherited_accessibleExtraInfo w\<rparr>"

definition pointee :: "world \<Rightarrow> AccessibilityController \<Rightarrow> ptr \<Rightarrow> IAccessible" where
  "pointee w s p = (if p = this s then ctrl_IAccessible w s else deref w p)"

definition pointee_opt :: "world \<Rightarrow> AccessibilityController \<Rightarrow> ptr \<Rightarrow> IAccessible option" where
  "pointee_opt w s p = (if p = nullptr then None else Some (pointee w s p))"

subsection \<open>Registry operations\<close>

definition findItem :: "AccessibilityController \<Rightarrow> ptr \<Rightarrow> Item" where
  "findItem s aitem = (case m_allItems s aitem of None \<Rightarrow> Item_default | Some it \<Rightarrow> it)"

definition isUsable :: "world \<Rightarrow> AccessibilityController \<Rightarrow> Item \<Rightarrow> bool" where
  "isUsable w s it = (isValid it \<and> \<not> accessibleIgnored (pointee w s (item it)))"

definition sendEvent :: "AccessibilityController \<Rightarrow> QAccessibleEvent option \<Rightarrow> AccessibilityController" where
  "sendEvent s ev =
     (case ev of
        None \<Rightarrow> s
      | Some e \<Rightarrow> s\<lparr>m_eventSent := m_eventSent s @ [e],
                    updateAccessibility := updateAccessibility s @ [e]\<rparr>)"

text \<open>
  \<open>reg\<close> and \<open>init\<close> call each other: the first \<open>reg\<close> sets \<open>m_inited\<close> and calls
  \<open>init\<close>, which registers the controller itself. Calling a method of a null item is
  the error \<open>NullDereference\<close>.
\<close>

function reg :: "world \<Rightarrow> AccessibilityController \<Rightarrow> ptr \<Rightarrow> error + AccessibilityController"
  and init :: "world \<Rightarrow> AccessibilityController \<Rightarrow> error + AccessibilityController" where
  "reg w s aitem =
     (if \<not> m_enabled s then Inr s
      else
        (case (if \<not> m_inited s then init w (s\<lparr>m_inited := True\<rparr>) else Inr s) of
           Inl e \<Rightarrow> Inl e
         | Inr s \<Rightarrow>
             if isValid (findItem s aitem) then Inr s
             else if aitem = nullptr then Inl NullDereference
             else
               (let (obj, s) = new s;
                    it = \<lparr>item = aitem, object = obj, iface = queryAccessibleInterface w obj\<rparr>;
                    s = s\<lparr>m_allItems := (m_allItems s)(aitem \<mapsto> it)\<rparr>;
                    s = (if accessibleParent (pointee w s aitem) = this s
                         then s\<lparr>m_children := m_children s @ [aitem]\<rparr> else s)
                in Inr (sendEvent s (Some \<lparr>ev_object = object it, ev_type = ObjectCreated\<rparr>)))))"
| "init w s =
     (let s = s\<lparr>factoryInstalled := True\<rparr>
      in case reg w s (this s) of
           Inl e \<Rightarrow> Inl e
         | Inr s \<Rightarrow>
             (let self = findItem s (this s);
                  s = s\<lparr>s_rootObject := object self\<rparr>;
                  s = s\<lparr>rootObject := s_rootObject s\<rparr>
              in if qApp w \<and> m_keyFilter s = nullptr
                 then (let (kf, s) = new s
                       in Inr (s\<lparr>m_keyFilter := kf, eventFilters := eventFilters s @ [kf]\<rparr>))
                 else Inr s))"
  by pat_completeness auto
termination
  by (relation "measure (\<lambda>x. case x of
          Inl (w, s, aitem) \<Rightarrow> (if m_inited s then 0 else 2)
        | Inr (w, s) \<Rightarrow> (if m_inited s then 1 else 3))") auto

declare reg.simps [simp del] init.simps [simp del]

text \<open>
  \<open>unreg\<close>; \<open>QHash::take\<close> removes the key and returns its value, or a
  default-constructed \<open>Item\<close>.
\<close>

definition unreg :: "AccessibilityController \<Rightarrow> ptr \<Rightarrow> AccessibilityController" where
  "unreg s aitem =
     (if aitem = nullptr then s
      else
        (let it = (case m_allItems s aitem of None \<Rightarrow> Item_default | Some v \<Rightarrow> v);
             s = s\<lparr>m_allItems := (m_allItems s)(aitem := None)\<rparr>
         in if \<not> isValid it then s
            else
              (let s = (if item it = m_lastFocused s then s\<lparr>m_lastFocused := nullptr\<rparr> else s);
                   s = (if item it = m_pretendFocus s then s\<lparr>m_pretendFocus := nullptr\<rparr> else s);
                   s = (if aitem \<in> set (m_children s)
                        then s\<lparr>m_children := remove1 aitem (m_children s)\<rparr> else s);
                   s = sendEvent s (Some \<lparr>ev_object = object it, ev_type = ObjectDestroyed\<rparr>)
               in s\<lparr>heap_deleted := heap_deleted s @ [object it]\<rparr>)))"

subsection \<open>Focus and announcements\<close>

definition needsRevoicing :: "ptr \<Rightarrow> QAccessible_Event \<Rightarrow> bool" where
  "needsRevoicing iface_ptr eventType = False"

definition triggerRevoicing :: "AccessibilityController \<Rightarrow> Item \<Rightarrow> AccessibilityController" where
  "triggerRevoicing s current =
     (if object current = nullptr then s
      else sendEvent s (Some \<lparr>ev_object = object current, ev_type = NameChanged\<rparr>))"

definition announce :: "AccessibilityController \<Rightarrow> string \<Rightarrow> AccessibilityController" where
  "announce s announcement =
     (let s = s\<lparr>m_announcement := announcement\<rparr>
      in if m_lastFocused s = nullptr \<or> announcement = [] then s
         else
           (let focused = findItem s (m_lastFocused s)
            in if \<not> isValid focused then s
               else if iface focused \<noteq> nullptr \<and> needsRevoicing (iface focused) NameChanged
               then triggerRevoicing s focused
               else sendEvent s (Some \<lparr>ev_object = object focused, ev_type = NameChanged\<rparr>)))"

definition setExternalFocus :: "world \<Rightarrow> AccessibilityController \<Rightarrow> Item \<Rightarrow> AccessibilityController" where
  "setExternalFocus w s other =
     (if \<not> isUsable w s other then s else s\<lparr>m_lastFocused := item other\<rparr>)"

definition restoreFocus :: "world \<Rightarrow> AccessibilityController \<Rightarrow> AccessibilityController" where
  "restoreFocus w s =
     (if m_pretendFocus s = nullptr then s
      else
        (let it = findItem s (m_pretendFocus s)
         in if \<not> isUsable w s it then s\<lparr>m_pretendFocus := nullptr\<rparr>
            else (setExternalFocus w s it)\<lparr>m_pretendFocus := nullptr\<rparr>))"

subsection \<open>The repeat hotkey\<close>

text \<open>
  An input event: its \<open>type()\<close> and, read only when the type is \<open>KeyPress\<close>, the
  \<open>QKeyEvent\<close> members.
\<close>

datatype QEvent_Type = KeyPress | KeyRelease | OtherType nat

record QEvent =
  event_type :: QEvent_Type
  isAutoRepeat :: bool
  key :: int
  modifiers :: "32 word"

definition say :: "AccessibilityController \<Rightarrow> string \<Rightarrow> AccessibilityController" where
  "say s text = s\<lparr>tts_calls := tts_calls s @ [Say text]\<rparr>"

definition stop :: "AccessibilityController \<Rightarrow> AccessibilityController" where
  "stop s = s\<lparr>tts_calls := tts_calls s @ [Stop]\<rparr>"

definition repeatCurrentElementInfo :: "world \<Rightarrow> AccessibilityController \<Rightarrow> AccessibilityController" where
  "repeatCurrentElementInfo w s =
     (if m_textToSpeech s = nullptr then s
      else
        (let textToSpeak = [];
             textToSpeak =
               (if m_lastFocused s \<noteq> nullptr
                then buildSpokenDescriptionFor (pointee_opt w s (m_lastFocused s))
                else textToSpeak);
             textToSpeak =
               (if textToSpeak = [] then
                  (case focusObject_text w of
                     None \<Rightarrow> textToSpeak
                   | Some (name, descr, val) \<Rightarrow>
                       (let parts = [];
                            parts = (if name \<noteq> [] then parts @ [name] else parts);
                            parts = (if descr \<noteq> [] then parts @ [descr] else parts);
                            parts = (if val \<noteq> [] then parts @ [val] else parts)
                        in if parts \<noteq> [] then join '', '' parts else textToSpeak))
                else textToSpeak);
             textToSpeak = (if textToSpeak = [] then ''No element focused'' else textToSpeak);
             s = (if tts_state w = Speaking then stop s else s)
         in say s textToSpeak))"

text \<open>
  \<open>eventFilter\<close> of the first variant: the result is the returned flag (the event is
  consumed) and the controller afterwards. The event is \<open>None\<close> for a null pointer.
\<close>

definition eventFilter ::
  "world \<Rightarrow> AccessibilityController \<Rightarrow> QEvent option \<Rightarrow> bool \<times> AccessibilityController" where
  "eventFilter w s event =
     (case event of
        None \<Rightarrow> (False, s)
      | Some ke \<Rightarrow>
          if \<not> m_repeatHotkeyEnabled s then (False, s)
          else if event_type ke = KeyPress
                  \<and> \<not> isAutoRepeat ke \<and> key ke = m_repeatHotkey s
                  \<and> modifiers ke = Qt_NoModifier
          then (True, repeatCurrentElementInfo w s)
          else (False, s))"

text \<open>
  The second variant of the file: the description is always built from
  \<open>m_lastFocused\<close>, and the filter does not consume the event.
\<close>

definition repeatCurrentElementInfo_variant2 ::
  "world \<Rightarrow> AccessibilityController \<Rightarrow> AccessibilityController" where
  "repeatCurrentElementInfo_variant2 w s =
     (if m_textToSpeech s = nullptr then s
      else
        (let textToSpeak = buildSpokenDescriptionFor (pointee_opt w s (m_lastFocused s));
             textToSpeak = (if textToSpeak = [] then ''No element focused'' else textToSpeak);
             s = (if tts_state w = Speaking then stop s else s)
         in say s textToSpeak))"

definition eventFilter_variant2 ::
  "world \<Rightarrow> AccessibilityController \<Rightarrow> QEvent option \<Rightarrow> bool \<times> AccessibilityController" where
  "eventFilter_variant2 w s event =
     (case event of
        None \<Rightarrow> (False, s)
      | Some ke \<Rightarrow>
          if \<not> m_repeatHotkeyEnabled s then (False, s)
          else if event_type ke = KeyPress
                  \<and> \<not> isAutoRepeat ke \<and> key ke = m_repeatHotkey s
                  \<and> modifiers ke = Qt_NoModifier
          then (False, repeatCurrentElementInfo_variant2 w s)
          else (False, s))"

subsection \<open>Reachable controllers\<close>

text \<open>
  The controllers that the member functions produce from a constructed one. The
  collaborators may answer differently at every call.
\<close>

inductive reachable :: "AccessibilityController \<Rightarrow> bool" where
  r_constructor: "a \<noteq> nullptr \<Longrightarrow> reachable (constructor a)"
| r_setAccessibilityEnabled: "reachable s \<Longrightarrow> reachable (setAccessibilityEnabled s b)"
| r_reg: "reachable s \<Longrightarrow> reg w s aitem = Inr s' \<Longrightarrow> reachable s'"
| r_unreg: "reachable s \<Longrightarrow> reachable (unreg s aitem)"
| r_announce: "reachable s \<Longrightarrow> reachable (announce s announcement)"
| r_setExternalFocus: "reachable s \<Longrightarrow> reachable (setExternalFocus w s other)"
| r_restoreFocus: "reachable s \<Longrightarrow> reachable (restoreFocus w s)"
| r_eventFilter: "reachable s \<Longrightarrow> reachable (snd (eventFilter w s event))"
| r_eventFilter_variant2: "reachable s \<Longrightarrow> reachable (snd (eventFilter_variant2 w s event))"
| r_repeatCurrentElementInfo: "reachable s \<Longrightarrow> reachable (repeatCurrentElementInfo w s)"
| r_sendEvent: "reachable s \<Longrightarrow> reachable (sendEvent s ev)"
| r_triggerRevoicing: "reachable s \<Longrightarrow> reachable (triggerRevoicing s current)"

subsection \<open>Invariant of the registry\<close>

text \<open>
  Every entry of the table is valid and is stored under its own item; the table is empty
  until the controller is initialised; the hotkey is enabled, the speech engine exists
  and the controller's address is not null.
\<close>

definition entries_ok :: "(ptr \<rightharpoonup> Item) \<Rightarrow> bool" where
  "entries_ok m = (\<forall>k it. m k = Some it \<longrightarrow> isValid it \<and> item it = k)"

definition registry_inv :: "AccessibilityController \<Rightarrow> bool" where
  "registry_inv s =
     ((\<not> m_inited s \<longrightarrow> m_allItems s = Map.empty)
      \<and> entries_ok (m_allItems s)
      \<and> m_repeatHotkeyEnabled s \<and> m_textToSpeech s \<noteq> nullptr \<and> this s \<noteq> nullptr)"

section \<open>A concrete configuration\<close>

text \<open>
  A controller at address 1, a panel at address 5 whose parent is the controller, and a
  score element at address 6 whose parent is the panel; \<open>example_registered\<close> is the
  controller after the panel has been registered.
\<close>

definition example_world :: world where
  "example_world =
     \<lparr>deref = (\<lambda>p. \<lparr>accessibleParent = (if p = 5 then 1 else if p = 6 then 5 else nullptr),
                     accessibleRole = (if p = 6 then ElementOnScore else Panel),
                     accessibleName = ''Palette'', accessibleDescription = [],
                     accessibleState = (\<lambda>st. True), accessibleIgnored = False,
                     accessibleValue = QVariant_Invalid,
                     accessibleScreenReaderInfo = ''Quarter note C4'',
                     accessibleExtraInfo = []\<rparr>),
      queryAccessibleInterface = (\<lambda>obj. obj + 100), qApp = True, tts_state = Speaking,
      focusObject_text = None, inherited_accessibleScreenReaderInfo = [],
      inherited_accessibleExtraInfo = []\<rparr>"

definition example_registered :: AccessibilityController where
  "example_registered =
     \<lparr>this = 1, m_enabled = True, m_inited = True, m_needToVoicePanelInfo = False,
      m_lastFocused = nullptr, m_announcement = [], m_children = [5],
      m_allItems = [1 \<mapsto> \<lparr>item = 1, object = 2, iface = 102\<rparr>,
                    5 \<mapsto> \<lparr>item = 5, object = 4, iface = 104\<rparr>],
      m_pretendFocus = nullptr, m_repeatHotkeyEnabled = True, m_repeatHotkey = Qt_Key_F12,
      m_textToSpeech = 1, m_keyFilter = 3,
      m_eventSent = [\<lparr>ev_object = 2, ev_type = ObjectCreated\<rparr>,
                     \<lparr>ev_object = 4, ev_type = ObjectCreated\<rparr>],
      s_rootObject = 2,
      updateAccessibility = [\<lparr>ev_object = 2, ev_type = ObjectCreated\<rparr>,
                             \<lparr>ev_object = 4, ev_type = ObjectCreated\<rparr>],
      factoryInstalled = True, rootObject = 2, eventFilters = [3], heap_next = 4,
      heap_deleted = [], tts_calls = []\<rparr>"

section \<open>Properties of the speech fallback\<close>

text \<open>
  C1: for every item, the description built by \<open>buildSpokenDescriptionFor\<close> and by
  \<open>getCurrentElementInfo\<close> is the one the specification words: for a document-content
  item the non-empty strings among screen-reader info and extra info joined with
  \<open>"; "\<close>; otherwise, and when both of those are empty, the non-empty strings among
  name, description and \<open>"value: " + value\<close> joined with \<open>", "\<close>; \<open>"Unknown element"\<close>
  when that list is empty; \<open>"No element focused"\<close> for a null item.
\<close>

theorem spoken_description_matches_spec:
  "buildSpokenDescriptionFor acc = spoken_description_spec acc
   \<and> getCurrentElementInfo acc = spoken_description_spec acc
   \<and> buildSpokenDescriptionFor None = ''No element focused''
   \<and> getCurrentElementInfo None = ''No element focused''"
  by (simp add: buildSpokenDescriptionFor_def getCurrentElementInfo_def
      spoken_description_spec_def nonEmpty_def Let_def split: option.split)

section \<open>Properties of the wrapper state mapping\<close>

text \<open>
  C6: for every wrapped item whose Enabled state is false, the computed platform state
  has exactly the disabled and invisible flags set and no other flag, whatever the
  item's role is.
\<close>

theorem disabled_item_state:
  "\<not> accessibleState it Enabled \<Longrightarrow>
     state it =
       \<lparr>invalid = False, disabled = True, invisible = True, active = False,
        focusable = False, focused = False, checkable = False, checked = False,
        selectable = False, selected = False\<rparr>"
  by (simp add: state_def QAccessible_State_default_def)

theorem disabled_item_state_witness:
  "\<not> accessibleState
        \<lparr>accessibleParent = 0, accessibleRole = RadioButton, accessibleName = ''Voice 1'',
         accessibleDescription = [], accessibleState = (\<lambda>st. st = Focused \<or> st = Checked),
         accessibleIgnored = False, accessibleValue = QVariant_Invalid,
         accessibleScreenReaderInfo = [], accessibleExtraInfo = []\<rparr> Enabled
   \<and> state
        \<lparr>accessibleParent = 0, accessibleRole = RadioButton, accessibleName = ''Voice 1'',
         accessibleDescription = [], accessibleState = (\<lambda>st. st = Focused \<or> st = Checked),
         accessibleIgnored = False, accessibleValue = QVariant_Invalid,
         accessibleScreenReaderInfo = [], accessibleExtraInfo = []\<rparr>
       = \<lparr>invalid = False, disabled = True, invisible = True, active = False,
          focusable = False, focused = False, checkable = False, checked = False,
          selectable = False, selected = False\<rparr>"
  using disabled_item_state
    [of "\<lparr>accessibleParent = 0, accessibleRole = RadioButton, accessibleName = ''Voice 1'',
         accessibleDescription = [], accessibleState = (\<lambda>st. st = Focused \<or> st = Checked),
         accessibleIgnored = False, accessibleValue = QVariant_Invalid,
         accessibleScreenReaderInfo = [], accessibleExtraInfo = []\<rparr>"]
  by simp

section \<open>Lemmas about registration\<close>

lemma entries_ok_upd:
  "entries_ok m \<Longrightarrow> p \<noteq> nullptr \<Longrightarrow> obj \<noteq> nullptr \<Longrightarrow>
     entries_ok (m(p \<mapsto> \<lparr>item = p, object = obj, iface = i\<rparr>))"
  unfolding entries_ok_def by (simp add: isValid_def) metis

lemma entries_ok_del: "entries_ok m \<Longrightarrow> entries_ok (m(p := None))"
  unfolding entries_ok_def by simp

lemma accessibleParent_pointee:
  "accessibleParent (pointee w s p) =
     (if p = this s then nullptr else accessibleParent (deref w p))"
  by (simp add: pointee_def ctrl_IAccessible_def ctrl_accessibleParent_def)

lemma reg_inited:
  "m_inited s \<Longrightarrow>
   reg w s p =
     (if \<not> m_enabled s \<or> isValid (findItem s p) then Inr s
      else if p = nullptr then Inl NullDereference
      else Inr (s\<lparr>heap_next := Suc (heap_next s),
                  m_allItems := (m_allItems s)(p \<mapsto>
                     \<lparr>item = p, object = Suc (heap_next s),
                      iface = queryAccessibleInterface w (Suc (heap_next s))\<rparr>),
                  m_children := (if p \<noteq> this s \<and> accessibleParent (deref w p) = this s
                                 then m_children s @ [p] else m_children s),
                  m_eventSent := m_eventSent s @
                     [\<lparr>ev_object = Suc (heap_next s), ev_type = ObjectCreated\<rparr>],
                  updateAccessibility := updateAccessibility s @
                     [\<lparr>ev_object = Suc (heap_next s), ev_type = ObjectCreated\<rparr>]\<rparr>))"
  by (simp add: reg.simps Let_def new_def sendEvent_def accessibleParent_pointee)

lemma reg_inited_inv:
  assumes "m_inited s" "reg w s p = Inr s'" "registry_inv s"
  shows "registry_inv s' \<and> m_inited s'"
proof (cases "\<not> m_enabled s \<or> isValid (findItem s p)")
  case True
  with assms show ?thesis by (simp add: reg_inited)
next
  case False
  with assms have p: "p \<noteq> nullptr" by (auto simp: reg_inited split: if_splits)
  from False assms p show ?thesis
    by (auto simp: reg_inited registry_inv_def entries_ok_upd split: if_splits)
qed

lemma reg_inited_facts:
  "m_inited s \<Longrightarrow> reg w s p = Inr s' \<Longrightarrow>
     m_enabled s' = m_enabled s \<and> m_keyFilter s' = m_keyFilter s \<and> this s' = this s
     \<and> m_inited s'
     \<and> (m_enabled s \<longrightarrow> isValid (findItem s' p))"
  by (auto simp: reg_inited isValid_def findItem_def split: if_splits)

lemma init_inited_inv:
  assumes "m_inited s" "init w s = Inr s'" "registry_inv s"
  shows "registry_inv s' \<and> m_inited s'"
proof -
  let ?s0 = "s\<lparr>factoryInstalled := True\<rparr>"
  from assms(2) obtain s1 where r: "reg w ?s0 (this s) = Inr s1"
    by (subst (asm) init.simps) (simp add: Let_def split: sum.splits)
  have "registry_inv ?s0" "m_inited ?s0" using assms by (simp_all add: registry_inv_def)
  with r have i1: "registry_inv s1" "m_inited s1" using reg_inited_inv by blast+
  from assms(2) r have "s' = s1\<lparr>s_rootObject := object (findItem s1 (this s1)), rootObject := object (findItem s1 (this s1))\<rparr>
     \<or> s' = s1\<lparr>s_rootObject := object (findItem s1 (this s1)), rootObject := object (findItem s1 (this s1)),
             heap_next := Suc (heap_next s1), m_keyFilter := Suc (heap_next s1),
             eventFilters := eventFilters s1 @ [Suc (heap_next s1)]\<rparr>"
    by (subst (asm) init.simps) (auto simp add: Let_def new_def split: if_splits)
  with i1 show ?thesis by (auto simp: registry_inv_def)
qed

lemma init_inited_facts:
  assumes "m_inited s" "init w s = Inr s'"
  shows "m_enabled s' = m_enabled s \<and> this s' = this s \<and> m_inited s'"
proof -
  let ?s0 = "s\<lparr>factoryInstalled := True\<rparr>"
  from assms(2) obtain s1 where r: "reg w ?s0 (this s) = Inr s1"
    by (subst (asm) init.simps) (simp add: Let_def split: sum.splits)
  have "m_inited ?s0" using assms by simp
  with r have i1: "m_enabled s1 = m_enabled s" "this s1 = this s" "m_inited s1"
    using reg_inited_facts[of ?s0 w "this s" s1] by auto
  from assms(2) r have "s' = s1\<lparr>s_rootObject := object (findItem s1 (this s1)), rootObject := object (findItem s1 (this s1))\<rparr>
     \<or> s' = s1\<lparr>s_rootObject := object (findItem s1 (this s1)), rootObject := object (findItem s1 (this s1)),
             heap_next := Suc (heap_next s1), m_keyFilter := Suc (heap_next s1),
             eventFilters := eventFilters s1 @ [Suc (heap_next s1)]\<rparr>"
    by (subst (asm) init.simps) (auto simp add: Let_def new_def split: if_splits)
  with i1 show ?thesis by auto
qed

lemma reg_first:
  assumes "m_enabled s" "\<not> m_inited s"
  shows "reg w s p =
           (case init w (s\<lparr>m_inited := True\<rparr>) of Inl e \<Rightarrow> Inl e | Inr s1 \<Rightarrow> reg w s1 p)"
proof (cases "init w (s\<lparr>m_inited := True\<rparr>)")
  case (Inl e)
  with assms show ?thesis by (simp add: reg.simps [of w s])
next
  case (Inr s1)
  have "m_enabled s1" "m_inited s1"
    using init_inited_facts [OF _ Inr] assms by simp_all
  with assms Inr show ?thesis
    by (simp add: reg.simps [of w s] reg.simps [of w s1])
qed

lemma reg_inv:
  assumes "reg w s p = Inr s'" "registry_inv s"
  shows "registry_inv s'"
proof (cases "m_enabled s")
  case False
  with assms show ?thesis by (simp add: reg.simps [of w s])
next
  case en: True
  show ?thesis
  proof (cases "m_inited s")
    case True
    with assms show ?thesis using reg_inited_inv by blast
  next
    case False
    with assms en obtain s1 where i: "init w (s\<lparr>m_inited := True\<rparr>) = Inr s1"
      and r: "reg w s1 p = Inr s'"
      by (auto simp: reg_first split: sum.splits)
    have "registry_inv (s\<lparr>m_inited := True\<rparr>)" using assms(2) False
      by (simp add: registry_inv_def entries_ok_def)
    with i have "registry_inv s1 \<and> m_inited s1" by (intro init_inited_inv [of "s\<lparr>m_inited := True\<rparr>" w s1]) simp_all
    then have "registry_inv s1" "m_inited s1" by simp_all
    with r show ?thesis using reg_inited_inv by blast
  qed
qed

lemma reg_result:
  assumes "reg w s p = Inr s'" "m_enabled s"
  shows "m_enabled s' \<and> m_inited s' \<and> isValid (findItem s' p)"
proof (cases "m_inited s")
  case True
  with assms show ?thesis using reg_inited_facts by blast
next
  case False
  with assms obtain s1 where i: "init w (s\<lparr>m_inited := True\<rparr>) = Inr s1"
    and r: "reg w s1 p = Inr s'"
    by (auto simp: reg_first split: sum.splits)
  have "m_enabled s1" "m_inited s1" using init_inited_facts [OF _ i] assms by simp_all
  with r show ?thesis using reg_inited_facts by blast
qed

lemma reg_twice: 
  assumes "reg w s p = Inr s'"
  shows "reg w s' p = Inr s'"
proof (cases "m_enabled s")
  case False
  with assms have "s' = s" by (simp add: reg.simps [of w s])
  with False show ?thesis by (simp add: reg.simps [of w s])
next
  case True
  with assms have "m_enabled s' \<and> m_inited s' \<and> isValid (findItem s' p)" by (rule reg_result)
  then show ?thesis by (simp add: reg_inited)
qed

lemma unreg_inv: "registry_inv s \<Longrightarrow> registry_inv (unreg s p)"
  by (simp add: unreg_def registry_inv_def Let_def sendEvent_def entries_ok_del)

lemma announce_inv: "registry_inv s \<Longrightarrow> registry_inv (announce s t)"
  by (simp add: announce_def registry_inv_def Let_def sendEvent_def triggerRevoicing_def)

lemma setExternalFocus_inv: "registry_inv s \<Longrightarrow> registry_inv (setExternalFocus w s other)"
  by (simp add: setExternalFocus_def registry_inv_def)

lemma restoreFocus_inv: "registry_inv s \<Longrightarrow> registry_inv (restoreFocus w s)"
  by (simp add: restoreFocus_def setExternalFocus_def registry_inv_def Let_def)

lemma repeat_inv: "registry_inv s \<Longrightarrow> registry_inv (repeatCurrentElementInfo w s)"
  by (simp add: repeatCurrentElementInfo_def registry_inv_def Let_def say_def stop_def)

lemma repeat2_inv: "registry_inv s \<Longrightarrow> registry_inv (repeatCurrentElementInfo_variant2 w s)"
  by (simp add: repeatCurrentElementInfo_variant2_def registry_inv_def Let_def say_def stop_def)

lemma sendEvent_inv: "registry_inv s \<Longrightarrow> registry_inv (sendEvent s ev)"
  by (simp add: sendEvent_def registry_inv_def split: option.split)

lemma triggerRevoicing_inv: "registry_inv s \<Longrightarrow> registry_inv (triggerRevoicing s current)"
  by (simp add: triggerRevoicing_def sendEvent_inv)

lemma eventFilter_inv: "registry_inv s \<Longrightarrow> registry_inv (snd (eventFilter w s ev))"
  by (simp add: eventFilter_def repeat_inv split: option.split)

lemma eventFilter2_inv: "registry_inv s \<Longrightarrow> registry_inv (snd (eventFilter_variant2 w s ev))"
  by (simp add: eventFilter_variant2_def repeat2_inv split: option.split)

lemma constructor_inv: "a \<noteq> nullptr \<Longrightarrow> registry_inv (constructor a)"
  by (simp add: constructor_def registry_inv_def new_def entries_ok_def)

lemma reachable_inv: "reachable s \<Longrightarrow> registry_inv s"
proof (induction rule: reachable.induct)
  case (r_constructor a)
  then show ?case by (rule constructor_inv)
next
  case (r_setAccessibilityEnabled s b)
  then show ?case by (simp add: setAccessibilityEnabled_def registry_inv_def)
next
  case (r_reg s w aitem s')
  then show ?case using reg_inv by blast
qed (simp_all add: unreg_inv announce_inv setExternalFocus_inv restoreFocus_inv
      eventFilter_inv eventFilter2_inv repeat_inv sendEvent_inv triggerRevoicing_inv)

lemma reg_example: "reg example_world (constructor 1) 5 = Inr example_registered"
proof -
  have h: "Suc (Suc 0) = 2" by simp
  show ?thesis
  by (simp add: h reg.simps init.simps constructor_def new_def example_world_def Let_def
      findItem_def isValid_def Item_default_def pointee_def sendEvent_def
      ctrl_IAccessible_def ctrl_accessibleParent_def example_registered_def)
qed

lemma reachable_example: "reachable example_registered"
  using r_reg [OF r_constructor reg_example] by simp

lemma reg_total:
  assumes "this s \<noteq> nullptr" "p \<noteq> nullptr"
  shows "\<exists>s'. reg w s p = Inr s'"
proof -
  have tail: "\<exists>s'. reg w t q = Inr s'" if "m_inited t" "q \<noteq> nullptr" for t q
    using that by (simp add: reg_inited)
  show ?thesis
  proof (cases "m_enabled s \<and> \<not> m_inited s")
    case False
    then show ?thesis using tail [of s p] assms by (auto simp: reg.simps [of w s])
  next
    case True
    let ?s0 = "s\<lparr>m_inited := True, factoryInstalled := True\<rparr>"
    obtain s1 where r: "reg w ?s0 (this s) = Inr s1"
      using tail [of ?s0 "this s"] assms by auto
    then have "\<exists>s2. init w (s\<lparr>m_inited := True\<rparr>) = Inr s2"
      by (simp add: init.simps [of w "s\<lparr>m_inited := True\<rparr>"] Let_def new_def split: prod.splits)
    then obtain s2 where i: "init w (s\<lparr>m_inited := True\<rparr>) = Inr s2" ..
    have "m_inited s2" using init_inited_facts [OF _ i] by simp
    then obtain s3 where "reg w s2 p = Inr s3" using tail assms by blast
    with True i show ?thesis by (simp add: reg_first)
  qed
qed

lemma unreg_removes:
  "p \<noteq> nullptr \<Longrightarrow> m_allItems (unreg s p) p = None"
  by (simp add: unreg_def Let_def sendEvent_def)

lemma init_inited_frame:
  assumes "m_inited s" "init w s = Inr s'"
  shows "m_children s' = m_children s \<and> (\<forall>q. q \<noteq> this s \<longrightarrow> m_allItems s' q = m_allItems s q)"
proof -
  let ?s0 = "s\<lparr>factoryInstalled := True\<rparr>"
  from assms(2) obtain s1 where r: "reg w ?s0 (this s) = Inr s1"
    by (subst (asm) init.simps) (simp add: Let_def split: sum.splits)
  have s1: "m_children s1 = m_children s \<and> (\<forall>q. q \<noteq> this s \<longrightarrow> m_allItems s1 q = m_allItems s q)"
    using r assms(1) by (auto simp: reg_inited split: if_splits)
  from assms(2) r have "m_children s' = m_children s1 \<and> m_allItems s' = m_allItems s1"
    by (subst (asm) init.simps) (auto simp add: Let_def new_def split: if_splits)
  with s1 show ?thesis by simp
qed

lemma reg_children:
  assumes "reg w s p = Inr s'"
  shows "m_children s' = m_children s
         \<or> (m_children s' = m_children s @ [p] \<and> p \<noteq> this s
            \<and> accessibleParent (deref w p) = this s)"
proof (cases "m_enabled s \<and> \<not> m_inited s")
  case False
  then consider "\<not> m_enabled s" | "m_inited s" by blast
  then show ?thesis
  proof cases
    case 1
    with assms show ?thesis by (simp add: reg.simps [of w s])
  next
    case 2
    with assms show ?thesis by (auto simp: reg_inited split: if_splits)
  qed
next
  case True
  with assms obtain s1 where i: "init w (s\<lparr>m_inited := True\<rparr>) = Inr s1"
    and r: "reg w s1 p = Inr s'"
    by (auto simp: reg_first split: sum.splits)
  have f: "m_inited s1" "this s1 = this s" using init_inited_facts [OF _ i] by simp_all
  have c: "m_children s1 = m_children s" using init_inited_frame [OF _ i] by simp
  from r f c show ?thesis by (auto simp: reg_inited split: if_splits)
qed

lemma constructor_fields:
  "this (constructor a) = a" "m_enabled (constructor a)" "\<not> m_inited (constructor a)"
  "m_children (constructor a) = []" "m_allItems (constructor a) = Map.empty"
  by (simp_all add: constructor_def new_def)

section \<open>Lemmas about the root item and the hotkey\<close>

lemma accessibleChild_null_beyond:
  "length (m_children s) \<le> unat i \<Longrightarrow> accessibleChild s i = Inr nullptr"
proof -
  assume a: "length (m_children s) \<le> unat i"
  have "unat (of_nat (length (m_children s)) :: 64 word) \<le> length (m_children s)"
    by (simp add: unat_of_nat)
  with a have "(of_nat (length (m_children s)) :: 64 word) \<le> i"
    by (simp add: word_le_nat_alt)
  then show ?thesis by (simp add: accessibleChild_def)
qed

lemma accessibleChild_in_range:
  assumes "i < length (m_children s)" "length (m_children s) < 2 ^ 31"
  shows "accessibleChild s (of_nat i) = Inr (m_children s ! i)"
proof -
  let ?n = "length (m_children s)"
  have i31: "i < 2 ^ 31" using assms by simp
  have n64: "?n < 2 ^ 64" using assms(2) by simp
  have i64: "i < 2 ^ 64" using i31 by simp
  have "unat (of_nat i :: 64 word) = i" using i64 by (simp add: unat_of_nat)
  moreover have "unat (of_nat ?n :: 64 word) = ?n" using n64 by (simp add: unat_of_nat)
  ultimately have lt: "\<not> (of_nat ?n :: 64 word) \<le> of_nat i"
    using assms(1) by (simp add: word_le_nat_alt)
  have tb: "take_bit 64 i = i" using i64 by (simp add: take_bit_nat_eq_self)
  have "(ucast (of_nat i :: 64 word) :: 32 word) = of_nat i"
    by (simp add: unsigned_of_nat tb)
  moreover have "sint (of_nat i :: 32 word) = int i"
    using i31 by (simp add: signed_of_nat signed_take_bit_int_eq_self)
  ultimately have "sint (ucast (of_nat i :: 64 word) :: 32 word) = int i" by simp
  with lt assms(1) show ?thesis by (simp add: accessibleChild_def at_def)
qed

lemma buildSpoken_nonempty: "buildSpokenDescriptionFor acc \<noteq> []"
  by (auto simp: buildSpokenDescriptionFor_def Let_def split: option.split)

lemma say_calls:
  "t \<noteq> [] \<Longrightarrow>
     \<exists>text. text \<noteq> [] \<and> tts_calls (say (if c then stop s else s) t)
       = tts_calls s @ (if c then [Stop] else []) @ [Say text]"
  by (auto simp: say_def stop_def)

lemma repeat_calls:
  assumes "m_textToSpeech s \<noteq> nullptr"
  shows "\<exists>text. text \<noteq> [] \<and> tts_calls (repeatCurrentElementInfo w s)
           = tts_calls s @ (if tts_state w = Speaking then [Stop] else []) @ [Say text]"
  unfolding repeatCurrentElementInfo_def Let_def using assms
  by (simp only: if_False) (rule say_calls, simp)

lemma repeat2_calls:
  assumes "m_textToSpeech s \<noteq> nullptr"
  shows "\<exists>text. text \<noteq> [] \<and> tts_calls (repeatCurrentElementInfo_variant2 w s)
           = tts_calls s @ (if tts_state w = Speaking then [Stop] else []) @ [Say text]"
  unfolding repeatCurrentElementInfo_variant2_def Let_def using assms
  by (simp only: if_False) (rule say_calls, simp)

section \<open>Properties of the registry\<close>

text \<open>
  C2: for every item, \<open>reg\<close> followed by \<open>unreg\<close> of the same item leaves the entry
  table without an entry for it, and \<open>findItem\<close> then returns the invalid sentinel, an
  entry whose item and wrapper are null. The registration itself returns, and when the
  controller is enabled the item has a valid entry in between.
\<close>

theorem reg_then_unreg:
  assumes "this s \<noteq> nullptr" "aitem \<noteq> nullptr"
  shows "\<exists>s1. reg w s aitem = Inr s1
           \<and> (m_enabled s \<longrightarrow> isValid (findItem s1 aitem))
           \<and> m_allItems (unreg s1 aitem) aitem = None
           \<and> findItem (unreg s1 aitem) aitem = \<lparr>item = nullptr, object = nullptr, iface = nullptr\<rparr>
           \<and> \<not> isValid (findItem (unreg s1 aitem) aitem)"
proof -
  from assms obtain s1 where r: "reg w s aitem = Inr s1" using reg_total by blast
  have v: "m_enabled s \<longrightarrow> isValid (findItem s1 aitem)" using reg_result [OF r] by simp
  have n: "m_allItems (unreg s1 aitem) aitem = None" using assms(2) by (rule unreg_removes)
  then have "findItem (unreg s1 aitem) aitem = Item_default" by (simp add: findItem_def)
  with r v n show ?thesis by (simp add: Item_default_def isValid_def)
qed

theorem reg_then_unreg_witness:
  "this (constructor 1) \<noteq> nullptr \<and> (5::ptr) \<noteq> nullptr
   \<and> reg example_world (constructor 1) 5 = Inr example_registered
   \<and> isValid (findItem example_registered 5)
   \<and> m_allItems (unreg example_registered 5) 5 = None
   \<and> findItem (unreg example_registered 5) 5 = \<lparr>item = nullptr, object = nullptr, iface = nullptr\<rparr>
   \<and> \<not> isValid (findItem (unreg example_registered 5) 5)"
  using reg_then_unreg [of "constructor 1" 5 example_world] reg_example
  by (simp add: constructor_def new_def isValid_def)

text \<open>
  C3: \<open>reg\<close> changes nothing when accessibility is disabled or when the item already has
  an entry: on every reachable controller the call returns the controller as it was, so
  the entry table and the top-level children list are unchanged. In particular a second
  registration of the same item returns the controller that the first one produced.
\<close>

theorem reg_noop:
  "(reachable s \<and> (\<not> m_enabled s \<or> m_allItems s aitem \<noteq> None) \<longrightarrow> reg w s aitem = Inr s)
   \<and> (reg w s aitem = Inr s1 \<longrightarrow> reg w s1 aitem = Inr s1)"
proof (intro conjI impI)
  assume a: "reachable s \<and> (\<not> m_enabled s \<or> m_allItems s aitem \<noteq> None)"
  then have i: "registry_inv s" using reachable_inv by blast
  show "reg w s aitem = Inr s"
  proof (cases "m_enabled s")
    case False
    then show ?thesis by (simp add: reg.simps [of w s])
  next
    case True
    with a obtain it where e: "m_allItems s aitem = Some it" by auto
    with i have "m_inited s" "isValid it" by (auto simp: registry_inv_def entries_ok_def)
    with e show ?thesis by (simp add: reg_inited findItem_def)
  qed
next
  assume "reg w s aitem = Inr s1"
  then show "reg w s1 aitem = Inr s1" by (rule reg_twice)
qed

theorem reg_noop_witness:
  "reachable example_registered \<and> m_allItems example_registered 5 \<noteq> None
   \<and> reg example_world (constructor 1) 5 = Inr example_registered
   \<and> reg example_world example_registered 5 = Inr example_registered"
  using reg_noop [of example_registered 5 example_world example_registered]
    reg_noop [of "constructor 1" 5 example_world example_registered]
    reachable_example reg_example
  by (simp add: example_registered_def)

text \<open>
  C4: \<open>announce\<close> with an empty text, or with no focused item, sends no event to the
  internal channel and none to the platform; its only effect is to set the pending
  announcement.
\<close>

theorem announce_no_event:
  assumes "announcement = [] \<or> m_lastFocused s = nullptr"
  shows "announce s announcement = s\<lparr>m_announcement := announcement\<rparr>
         \<and> m_eventSent (announce s announcement) = m_eventSent s
         \<and> updateAccessibility (announce s announcement) = updateAccessibility s"
  using assms by (auto simp: announce_def Let_def)

theorem announce_no_event_witness:
  "announce (example_registered\<lparr>m_lastFocused := 5\<rparr>) []
     = example_registered\<lparr>m_lastFocused := 5, m_announcement := []\<rparr>
   \<and> announce example_registered ''Voice 1 selected''
     = example_registered\<lparr>m_announcement := ''Voice 1 selected''\<rparr>
   \<and> m_lastFocused example_registered = nullptr"
  using announce_no_event [of "[]" "example_registered\<lparr>m_lastFocused := 5\<rparr>"]
    announce_no_event [of "''Voice 1 selected''" example_registered]
  by (simp add: example_registered_def)

text \<open>
  C5: for every registered item, \<open>unreg\<close> clears the focus references to it:
  \<open>m_lastFocused\<close> becomes null if it was the item, and \<open>m_pretendFocus\<close> becomes null if
  it was the item. Nothing else happens to the focus state (no restoration runs): the
  controller afterwards is the one before with the entry removed, the two references
  cleared, the item taken out of the children list, the destroyed event sent and the
  wrapper deleted.
\<close>

theorem unreg_clears_focus:
  assumes "isValid (findItem s aitem)" "item (findItem s aitem) = aitem"
  shows "unreg s aitem =
           s\<lparr>m_allItems := (m_allItems s)(aitem := None),
             m_lastFocused := (if m_lastFocused s = aitem then nullptr else m_lastFocused s),
             m_pretendFocus := (if m_pretendFocus s = aitem then nullptr else m_pretendFocus s),
             m_children := remove1 aitem (m_children s),
             m_eventSent := m_eventSent s @
                [\<lparr>ev_object = object (findItem s aitem), ev_type = ObjectDestroyed\<rparr>],
             updateAccessibility := updateAccessibility s @
                [\<lparr>ev_object = object (findItem s aitem), ev_type = ObjectDestroyed\<rparr>],
             heap_deleted := heap_deleted s @ [object (findItem s aitem)]\<rparr>
         \<and> m_lastFocused (unreg s aitem) \<noteq> aitem
         \<and> m_pretendFocus (unreg s aitem) \<noteq> aitem"
proof -
  from assms obtain it where e: "m_allItems s aitem = Some it"
    by (auto simp: findItem_def isValid_def Item_default_def split: option.splits)
  with assms have v: "isValid it" and k: "item it = aitem" and f: "findItem s aitem = it"
    by (simp_all add: findItem_def)
  from v k have nz: "aitem \<noteq> nullptr" by (auto simp: isValid_def)
  have r: "aitem \<notin> set xs \<Longrightarrow> remove1 aitem xs = xs" for xs :: "ptr list"
    by (simp add: remove1_idem)
  show ?thesis
    by (cases "m_lastFocused s = aitem"; cases "m_pretendFocus s = aitem";
        cases "aitem \<in> set (m_children s)")
       (simp_all add: unreg_def Let_def sendEvent_def e v k f nz r)
qed

theorem unreg_clears_focus_witness:
  "isValid (findItem (example_registered\<lparr>m_lastFocused := 5, m_pretendFocus := 5\<rparr>) 5)
   \<and> item (findItem (example_registered\<lparr>m_lastFocused := 5, m_pretendFocus := 5\<rparr>) 5) = 5
   \<and> m_lastFocused (unreg (example_registered\<lparr>m_lastFocused := 5, m_pretendFocus := 5\<rparr>) 5) = nullptr
   \<and> m_pretendFocus (unreg (example_registered\<lparr>m_lastFocused := 5, m_pretendFocus := 5\<rparr>) 5) = nullptr"
  using unreg_clears_focus [of "example_registered\<lparr>m_lastFocused := 5, m_pretendFocus := 5\<rparr>" 5]
  by (simp add: example_registered_def findItem_def isValid_def)

text \<open>
  C10: for every index that is at least the number of top-level children,
  \<open>accessibleChild\<close> of the root returns null and does not read the list.
\<close>

theorem accessibleChild_out_of_range:
  "length (m_children s) \<le> unat i \<Longrightarrow> accessibleChild s i = Inr nullptr"
  by (rule accessibleChild_null_beyond)

theorem accessibleChild_out_of_range_witness:
  "length (m_children example_registered) \<le> unat (1 :: 64 word)
   \<and> accessibleChild example_registered 1 = Inr nullptr"
  using accessibleChild_out_of_range [of example_registered 1]
  by (simp add: example_registered_def)

text \<open>
  C9: only an item whose reported parent is the controller itself enters the top-level
  children list when it is registered: a registration either leaves the list as it was
  or appends the item, and then the item's parent is the controller. After registering,
  on a fresh controller, child A with parent = root and child B with parent = A, the
  list is \<open>[A]\<close> and the root's \<open>accessibleChildCount\<close> is 1; B is not in the list.
\<close>

theorem top_level_children:
  "(reg w s p = Inr s' \<longrightarrow>
      m_children s' = m_children s
      \<or> (m_children s' = m_children s @ [p] \<and> p \<noteq> this s
          \<and> accessibleParent (deref w p) = this s))
   \<and> (a \<noteq> nullptr \<and> A \<noteq> nullptr \<and> B \<noteq> nullptr \<and> A \<noteq> a
       \<and> accessibleParent (deref w A) = a \<and> accessibleParent (deref w B) = A \<longrightarrow>
       (\<exists>s1 s2. reg w (constructor a) A = Inr s1 \<and> reg w s1 B = Inr s2
          \<and> m_children s1 = [A] \<and> m_children s2 = [A] \<and> B \<notin> set (m_children s2)
          \<and> accessibleChildCount s2 = 1))"
proof (intro conjI impI)
  assume "reg w s p = Inr s'"
  then show "m_children s' = m_children s
      \<or> (m_children s' = m_children s @ [p] \<and> p \<noteq> this s
          \<and> accessibleParent (deref w p) = this s)"
    by (rule reg_children)
next
  assume h: "a \<noteq> nullptr \<and> A \<noteq> nullptr \<and> B \<noteq> nullptr \<and> A \<noteq> a
       \<and> accessibleParent (deref w A) = a \<and> accessibleParent (deref w B) = A"
  let ?c = "constructor a"
  from h obtain s1 where r1: "reg w ?c A = Inr s1"
    using reg_total [of ?c A w] by (auto simp: constructor_fields)
  then obtain t where i: "init w (?c\<lparr>m_inited := True\<rparr>) = Inr t" and rt: "reg w t A = Inr s1"
    by (auto simp: reg_first constructor_fields split: sum.splits)
  have tf: "m_inited t" "m_enabled t" "this t = a"
    using init_inited_facts [OF _ i] by (simp_all add: constructor_fields)
  have tc: "m_children t = []" "m_allItems t A = None"
    using init_inited_frame [OF _ i] h by (simp_all add: constructor_fields)
  from rt tf tc h have c1: "m_children s1 = [A]" and f1: "m_inited s1" "this s1 = a"
    by (auto simp: reg_inited findItem_def isValid_def Item_default_def split: if_splits)
  from h f1 obtain s2 where r2: "reg w s1 B = Inr s2"
    using reg_total [of s1 B w] by auto
  with f1 c1 h have c2: "m_children s2 = [A]"
    by (auto simp: reg_inited split: if_splits)
  from h have "B \<noteq> A" by auto
  with r1 r2 c1 c2 show "\<exists>s1 s2. reg w (constructor a) A = Inr s1 \<and> reg w s1 B = Inr s2
          \<and> m_children s1 = [A] \<and> m_children s2 = [A] \<and> B \<notin> set (m_children s2)
          \<and> accessibleChildCount s2 = 1"
    by (auto simp: accessibleChildCount_def)
qed

theorem top_level_children_witness:
  "reg example_world (constructor 1) 5 = Inr example_registered
   \<and> accessibleParent (deref example_world 5) = 1
   \<and> accessibleParent (deref example_world 6) = 5
   \<and> (\<exists>s2. reg example_world example_registered 6 = Inr s2
         \<and> m_children s2 = [5] \<and> accessibleChildCount s2 = 1)"
proof -
  have h: "(1::ptr) \<noteq> nullptr \<and> (5::ptr) \<noteq> nullptr \<and> (6::ptr) \<noteq> nullptr \<and> (5::ptr) \<noteq> 1
      \<and> accessibleParent (deref example_world 5) = 1
      \<and> accessibleParent (deref example_world 6) = 5"
    by (simp add: example_world_def)
  with top_level_children [of example_world "constructor 1" 5 example_registered 1 5 6]
  obtain s1 s2 where "reg example_world (constructor 1) 5 = Inr s1"
    and "reg example_world s1 6 = Inr s2" and "m_children s2 = [5]"
    and "accessibleChildCount s2 = 1"
    by blast
  with reg_example h show ?thesis by auto
qed

section \<open>Properties of the root item\<close>

text \<open>
  C7 as stated: the root's fixed name is \<open>"application"\<close>. The controller answers
  \<open>"MuseScore"\<close>.
\<close>

theorem root_name_counterexample: "ctrl_accessibleName \<noteq> ''application''"
  by (simp add: ctrl_accessibleName_def)

text \<open>
  C7, amended: the controller implements the item interface for the root with the fixed
  name \<open>"MuseScore"\<close>, the role Application and no parent; its children are the
  top-level list (the count is the length of the list, an index inside the list gives
  the item at that position, an index beyond it gives null); description, value,
  maximum, minimum and step are empty, and every text operation returns an empty string
  and zero positions.
\<close>

theorem root_item_implementation:
  "accessibleName (ctrl_IAccessible w s) = ''MuseScore''
   \<and> accessibleRole (ctrl_IAccessible w s) = Application
   \<and> accessibleParent (ctrl_IAccessible w s) = nullptr
   \<and> pointee w s (this s) = ctrl_IAccessible w s
   \<and> accessibleChildCount s = of_nat (length (m_children s))
   \<and> (i < length (m_children s) \<and> length (m_children s) < 2 ^ 31 \<longrightarrow>
        accessibleChild s (of_nat i) = Inr (m_children s ! i))
   \<and> (length (m_children s) \<le> unat j \<longrightarrow> accessibleChild s j = Inr nullptr)
   \<and> accessibleDescription (ctrl_IAccessible w s) = []
   \<and> accessibleValue (ctrl_IAccessible w s) = QVariant_Invalid
   \<and> toString (accessibleValue (ctrl_IAccessible w s)) = []
   \<and> accessibleMaximumValue = QVariant_Invalid
   \<and> accessibleMinimumValue = QVariant_Invalid
   \<and> accessibleValueStepSize = QVariant_Invalid
   \<and> accessibleSelection n (Some a) (Some b) = (Some 0, Some 0)
   \<and> accessibleSelectionCount = 0
   \<and> accessibleCursorPosition = 0
   \<and> accessibleText x y = []
   \<and> accessibleTextBeforeOffset n boundary (Some a) (Some b) = ([], Some 0, Some 0)
   \<and> accessibleTextAfterOffset n boundary (Some a) (Some b) = ([], Some 0, Some 0)
   \<and> accessibleTextAtOffset n boundary (Some a) (Some b) = ([], Some 0, Some 0)
   \<and> accessibleCharacterCount = 0
   \<and> accessibleRowIndex = 0"
proof -
  have c: "i < length (m_children s) \<and> length (m_children s) < 2 ^ 31 \<longrightarrow>
        accessibleChild s (of_nat i) = Inr (m_children s ! i)"
    using accessibleChild_in_range by blast
  have o: "length (m_children s) \<le> unat j \<longrightarrow> accessibleChild s j = Inr nullptr"
    using accessibleChild_null_beyond by blast
  show ?thesis
    using c o
    by (simp add: ctrl_IAccessible_def ctrl_accessibleName_def ctrl_accessibleRole_def
        ctrl_accessibleParent_def pointee_def accessibleChildCount_def
        ctrl_accessibleDescription_def ctrl_accessibleValue_def accessibleMaximumValue_def
        accessibleMinimumValue_def accessibleValueStepSize_def accessibleSelection_def
        store_zero_def accessibleSelectionCount_def accessibleCursorPosition_def
        accessibleText_def accessibleTextBeforeOffset_def accessibleTextAfterOffset_def
        accessibleTextAtOffset_def accessibleCharacterCount_def accessibleRowIndex_def)
qed

theorem root_item_implementation_witness:
  "(0::nat) < length (m_children example_registered)
   \<and> length (m_children example_registered) < 2 ^ 31
   \<and> length (m_children example_registered) \<le> unat (3 :: 64 word)
   \<and> accessibleName (ctrl_IAccessible example_world example_registered) = ''MuseScore''
   \<and> accessibleChildCount example_registered = 1
   \<and> accessibleChild example_registered 0 = Inr 5
   \<and> accessibleChild example_registered 3 = Inr nullptr"
  using root_item_implementation [of example_world example_registered 0 3 0 0 0 0 0 "()"]
  by (simp add: example_registered_def)

section \<open>Properties of the hotkey filter\<close>

text \<open>
  C8: for every key-press event offered to the filter, in both variants of the filter
  and for every controller, whatever its configured hotkey is: an event with the
  auto-repeat flag leaves the controller as it was (nothing is spoken); an event with the
  configured hotkey, no auto-repeat flag and no modifiers, on a controller whose hotkey
  is enabled, runs \<open>repeatCurrentElementInfo\<close>, which, the speech engine being there,
  speaks one non-empty text (after stopping the engine if it is speaking). The hotkey is
  enabled and the speech engine is there on every reachable controller and on the
  controller that the second variant constructs, whose hotkey is \<open>Qt::Key_R\<close>.
\<close>

theorem hotkey_filter:
  assumes "event_type ke = KeyPress"
  shows "(isAutoRepeat ke \<longrightarrow>
            eventFilter w s (Some ke) = (False, s)
            \<and> eventFilter_variant2 w s (Some ke) = (False, s))
         \<and> (\<not> isAutoRepeat ke \<and> key ke = m_repeatHotkey s \<and> modifiers ke = Qt_NoModifier
             \<and> m_repeatHotkeyEnabled s \<longrightarrow>
            eventFilter w s (Some ke) = (True, repeatCurrentElementInfo w s)
            \<and> eventFilter_variant2 w s (Some ke) = (False, repeatCurrentElementInfo_variant2 w s)
            \<and> (m_textToSpeech s \<noteq> nullptr \<longrightarrow>
                (\<exists>text. text \<noteq> [] \<and> tts_calls (repeatCurrentElementInfo w s)
                    = tts_calls s @ (if tts_state w = Speaking then [Stop] else []) @ [Say text])
                \<and> (\<exists>text. text \<noteq> [] \<and> tts_calls (repeatCurrentElementInfo_variant2 w s)
                    = tts_calls s @ (if tts_state w = Speaking then [Stop] else []) @ [Say text])))
         \<and> (reachable s \<longrightarrow> m_repeatHotkeyEnabled s \<and> m_textToSpeech s \<noteq> nullptr)
         \<and> m_repeatHotkeyEnabled (constructor_variant2 a)
         \<and> m_textToSpeech (constructor_variant2 a) \<noteq> nullptr
         \<and> m_repeatHotkey (constructor_variant2 a) = Qt_Key_R
         \<and> m_repeatHotkey (constructor a) = Qt_Key_F12"
proof -
  have auto_repeat: "isAutoRepeat ke \<longrightarrow>
            eventFilter w s (Some ke) = (False, s)
            \<and> eventFilter_variant2 w s (Some ke) = (False, s)"
    by (simp add: eventFilter_def eventFilter_variant2_def)
  have fires: "\<not> isAutoRepeat ke \<and> key ke = m_repeatHotkey s \<and> modifiers ke = Qt_NoModifier
             \<and> m_repeatHotkeyEnabled s \<longrightarrow>
            eventFilter w s (Some ke) = (True, repeatCurrentElementInfo w s)
            \<and> eventFilter_variant2 w s (Some ke) = (False, repeatCurrentElementInfo_variant2 w s)"
    using assms by (simp add: eventFilter_def eventFilter_variant2_def)
  have speaks: "m_textToSpeech s \<noteq> nullptr \<longrightarrow>
                (\<exists>text. text \<noteq> [] \<and> tts_calls (repeatCurrentElementInfo w s)
                    = tts_calls s @ (if tts_state w = Speaking then [Stop] else []) @ [Say text])
                \<and> (\<exists>text. text \<noteq> [] \<and> tts_calls (repeatCurrentElementInfo_variant2 w s)
                    = tts_calls s @ (if tts_state w = Speaking then [Stop] else []) @ [Say text])"
    using repeat_calls [of s w] repeat2_calls [of s w] by blast
  have reach: "reachable s \<longrightarrow> m_repeatHotkeyEnabled s \<and> m_textToSpeech s \<noteq> nullptr"
    using reachable_inv [of s] by (auto simp: registry_inv_def)
  have ctor: "m_repeatHotkeyEnabled (constructor_variant2 a)
         \<and> m_textToSpeech (constructor_variant2 a) \<noteq> nullptr
         \<and> m_repeatHotkey (constructor_variant2 a) = Qt_Key_R
         \<and> m_repeatHotkey (constructor a) = Qt_Key_F12"
    by (simp add: constructor_variant2_def constructor_def new_def)
  from auto_repeat fires speaks reach ctor show ?thesis by blast
qed

theorem hotkey_filter_witness:
  "reachable example_registered
   \<and> m_repeatHotkeyEnabled example_registered \<and> m_textToSpeech example_registered \<noteq> nullptr
   \<and> eventFilter example_world example_registered
        (Some \<lparr>event_type = KeyPress, isAutoRepeat = True, key = Qt_Key_F12, modifiers = 0\<rparr>)
      = (False, example_registered)
   \<and> eventFilter example_world example_registered
        (Some \<lparr>event_type = KeyPress, isAutoRepeat = False, key = Qt_Key_F12, modifiers = 0\<rparr>)
      = (True, example_registered\<lparr>tts_calls := [Stop, Say ''No element focused'']\<rparr>)
   \<and> m_repeatHotkey (constructor_variant2 1) = Qt_Key_R
   \<and> m_repeatHotkeyEnabled (constructor_variant2 1)
   \<and> m_textToSpeech (constructor_variant2 1) \<noteq> nullptr
   \<and> eventFilter_variant2 example_world (constructor_variant2 1)
        (Some \<lparr>event_type = KeyPress, isAutoRepeat = True, key = Qt_Key_R, modifiers = 0\<rparr>)
      = (False, constructor_variant2 1)
   \<and> eventFilter_variant2 example_world (constructor_variant2 1)
        (Some \<lparr>event_type = KeyPress, isAutoRepeat = False, key = Qt_Key_R, modifiers = 0\<rparr>)
      = (False, (constructor_variant2 1)\<lparr>tts_calls := [Stop, Say ''No element focused'']\<rparr>)"
  using hotkey_filter [of
      "\<lparr>event_type = KeyPress, isAutoRepeat = True, key = Qt_Key_F12, modifiers = 0\<rparr>"
      example_world example_registered 1]
    hotkey_filter [of
      "\<lparr>event_type = KeyPress, isAutoRepeat = False, key = Qt_Key_F12, modifiers = 0\<rparr>"
      example_world example_registered 1]
    hotkey_filter [of
      "\<lparr>event_type = KeyPress, isAutoRepeat = True, key = Qt_Key_R, modifiers = 0\<rparr>"
      example_world "constructor_variant2 1" 1]
    hotkey_filter [of
      "\<lparr>event_type = KeyPress, isAutoRepeat = False, key = Qt_Key_R, modifiers = 0\<rparr>"
      example_world "constructor_variant2 1" 1]
    reachable_example
  by (simp add: example_registered_def example_world_def constructor_variant2_def new_def
      repeatCurrentElementInfo_def repeatCurrentElementInfo_variant2_def Qt_NoModifier_def
      say_def stop_def Let_def pointee_opt_def buildSpokenDescriptionFor_def)

end
